theory Spec2Isabelle
  imports Complex_Main
begin

section \<open>Geometry: bounding boxes and intersection over union\<close>

text \<open>
  The tracker and the predictor compute with Python and NumPy floating-point numbers.
  The model computes with \<^typ>\<open>real\<close>: a statement below is a statement about the
  exact arithmetic the code approximates. The one exception is the number of points of
  \<open>np.arange\<close>, which the rounding of doubles decides and which is computed with that
  rounding.

  A bounding box is the list \<open>[x1, y1, x2, y2]\<close> of a detection's \<open>'bbox'\<close> entry,
  a point is the two-element list of its \<open>'center'\<close> entry.
\<close>

type_synonym bbox = "real \<times> real \<times> real \<times> real"
type_synonym point = "real \<times> real"

text \<open>\<open>ObjectTracker._calculate_iou\<close> (tracker.py, lines 183 to 204).\<close>

fun calculate_iou :: "bbox \<Rightarrow> bbox \<Rightarrow> real" where
  "calculate_iou (x1_1, y1_1, x2_1, y2_1) (x1_2, y1_2, x2_2, y2_2) =
     (let x1_i = max x1_1 x1_2;
          y1_i = max y1_1 y1_2;
          x2_i = min x2_1 x2_2;
          y2_i = min y2_1 y2_2
      in if x2_i \<le> x1_i \<or> y2_i \<le> y1_i then 0
         else
           let intersection = (x2_i - x1_i) * (y2_i - y1_i);
               area1 = (x2_1 - x1_1) * (y2_1 - y1_1);
               area2 = (x2_2 - x1_2) * (y2_2 - y1_2);
               union = area1 + area2 - intersection
           in if union > 0 then intersection / union else 0)"

text \<open>
  The open rectangle a box covers. Two boxes overlap when their open rectangles share a
  point; boxes that only touch along an edge, and boxes of no area, do not overlap.
\<close>

definition box_interior :: "bbox \<Rightarrow> point set" where
  "box_interior b =
     (case b of (x1, y1, x2, y2) \<Rightarrow> {(x, y). x1 < x \<and> x < x2 \<and> y1 < y \<and> y < y2})"


section \<open>The Kalman filter\<close>

text \<open>
  NumPy vectors and matrices are lists and lists of rows. The operations below are the
  ones \<open>KalmanFilter\<close> uses: \<open>A @ v\<close>, \<open>A @ B\<close>, \<open>A.T\<close>, \<open>A + B\<close>,
  \<open>A - B\<close>, \<open>np.eye(n) * c\<close> and \<open>np.linalg.inv\<close>.
\<close>

type_synonym vec = "real list"
type_synonym mat = "real list list"

datatype py_error = IndexError | LinAlgError | ValueError

definition dot :: "vec \<Rightarrow> vec \<Rightarrow> real" where
  "dot u v = sum_list (map2 (*) u v)"

definition mat_vec :: "mat \<Rightarrow> vec \<Rightarrow> vec" where
  "mat_vec A v = map (\<lambda>row. dot row v) A"

fun mat_T :: "mat \<Rightarrow> mat" where
  "mat_T [] = []"
| "mat_T [r] = map (\<lambda>x. [x]) r"
| "mat_T (r # rs) = map2 (#) r (mat_T rs)"

definition mat_mul :: "mat \<Rightarrow> mat \<Rightarrow> mat" where
  "mat_mul A B = map (\<lambda>row. map (dot row) (mat_T B)) A"

definition vec_add :: "vec \<Rightarrow> vec \<Rightarrow> vec" where
  "vec_add u v = map2 (+) u v"

definition vec_sub :: "vec \<Rightarrow> vec \<Rightarrow> vec" where
  "vec_sub u v = map2 (-) u v"

definition mat_add :: "mat \<Rightarrow> mat \<Rightarrow> mat" where
  "mat_add A B = map2 vec_add A B"

definition mat_sub :: "mat \<Rightarrow> mat \<Rightarrow> mat" where
  "mat_sub A B = map2 vec_sub A B"

definition eye :: "nat \<Rightarrow> real \<Rightarrow> mat" where
  \<comment> \<open>\<open>np.eye(n) * c\<close>\<close>
  "eye n c = map (\<lambda>i. map (\<lambda>j. if i = j then c else 0) [0..<n]) [0..<n]"

text \<open>
  \<open>np.linalg.inv\<close> raises \<open>LinAlgError\<close> on a singular matrix. The filter only
  inverts the 2 by 2 innovation covariance, so the inverse is written out for that shape.
\<close>

fun linalg_inv :: "mat \<Rightarrow> py_error + mat" where
  "linalg_inv [[a, b], [c, d]] =
     (let det = a * d - b * c
      in if det = 0 then Inl LinAlgError
         else Inr [[d / det, - b / det], [- c / det, a / det]])"
| "linalg_inv _ = Inl LinAlgError"

record kalman_filter =
  state :: vec
  covariance :: mat

text \<open>
  The matrices \<open>F\<close>, \<open>H\<close>, \<open>Q\<close> and \<open>R\<close> are set by \<open>KalmanFilter.__init__\<close>
  and never assigned again.
\<close>

definition kf_F :: mat where
  "kf_F = [[1, 0, 1, 0],
          [0, 1, 0, 1],
          [0, 0, 1, 0],
          [0, 0, 0, 1]]"

definition kf_H :: mat where
  "kf_H = [[1, 0, 0, 0],
          [0, 1, 0, 0]]"

definition kf_Q :: mat where
  "kf_Q = eye 4 (1 / 10)"

definition kf_R :: mat where
  "kf_R = eye 2 1"

definition KalmanFilter_init :: "vec \<Rightarrow> kalman_filter" where
  "KalmanFilter_init initial_state = \<lparr>state = initial_state, covariance = eye 4 1000\<rparr>"

text \<open>\<open>KalmanFilter.predict\<close>: the new filter and the returned position \<open>state[:2]\<close>.\<close>

definition KalmanFilter_predict :: "kalman_filter \<Rightarrow> kalman_filter \<times> vec" where
  "KalmanFilter_predict kf =
     (let state' = mat_vec kf_F (state kf);
          covariance' = mat_add (mat_mul (mat_mul kf_F (covariance kf)) (mat_T kf_F)) kf_Q
      in (\<lparr>state = state', covariance = covariance'\<rparr>, take 2 state'))"

text \<open>\<open>KalmanFilter.update\<close>; the inversion of \<open>S\<close> is where it can raise.\<close>

definition KalmanFilter_update :: "vec \<Rightarrow> kalman_filter \<Rightarrow> py_error + kalman_filter" where
  "KalmanFilter_update measurement kf =
     (let y = vec_sub measurement (mat_vec kf_H (state kf));
          S = mat_add (mat_mul (mat_mul kf_H (covariance kf)) (mat_T kf_H)) kf_R
      in case linalg_inv S of
           Inl e \<Rightarrow> Inl e
         | Inr S_inv \<Rightarrow>
             let K = mat_mul (mat_mul (covariance kf) (mat_T kf_H)) S_inv
             in Inr \<lparr>state = vec_add (state kf) (mat_vec K y),
                     covariance = mat_mul (mat_sub (eye 4 1) (mat_mul K kf_H)) (covariance kf)\<rparr>)"

section \<open>Tracks\<close>

record detection =
  det_bbox :: bbox
  det_confidence :: real
  det_class_id :: int
  det_center :: point

record history_entry =
  h_position :: point
  h_timestamp :: real
  h_bbox :: bbox

record track =
  trk_id :: int
  kalman :: kalman_filter
  age :: int
  hits :: int
  hit_streak :: int
  time_since_update :: int
  history :: "history_entry list"
  trk_bbox :: bbox
  trk_confidence :: real
  last_update :: real

text \<open>
  \<open>time.time()\<close> is read from a clock: \<open>clock k\<close> is what the \<open>k\<close>-th call
  returns, and every function that reads the clock takes the number of reads so far and
  returns the new number.
\<close>

type_synonym clock = "nat \<Rightarrow> real"

text \<open>\<open>Track.__init__\<close> (tracker.py, lines 51 to 61): one clock read.\<close>

definition Track_init :: "clock \<Rightarrow> detection \<Rightarrow> int \<Rightarrow> nat \<Rightarrow> track \<times> nat" where
  "Track_init clk det track_id k =
     (\<lparr>trk_id = track_id,
       kalman = KalmanFilter_init [fst (det_center det), snd (det_center det), 0, 0],
       age = 0,
       hits = 1,
       hit_streak = 1,
       time_since_update = 0,
       history = [],
       trk_bbox = det_bbox det,
       trk_confidence = det_confidence det,
       last_update = clk k\<rparr>, Suc k)"

text \<open>\<open>Track.predict\<close> (lines 63 to 68).\<close>

definition track_predict :: "track \<Rightarrow> track \<times> vec" where
  "track_predict t =
     (let (kf', predicted_pos) = KalmanFilter_predict (kalman t)
      in (t\<lparr>kalman := kf', age := age t + 1, time_since_update := time_since_update t + 1\<rparr>,
          predicted_pos))"

text \<open>
  \<open>Track.update\<close> (lines 70 to 89): two clock reads, the history capped at 30 entries
  by dropping the oldest.
\<close>

definition track_update :: "clock \<Rightarrow> detection \<Rightarrow> track \<Rightarrow> nat \<Rightarrow> py_error + (track \<times> nat)" where
  "track_update clk det t k =
     (case KalmanFilter_update [fst (det_center det), snd (det_center det)] (kalman t) of
        Inl e \<Rightarrow> Inl e
      | Inr kf' \<Rightarrow>
          let history' = history t @
                [\<lparr>h_position = det_center det, h_timestamp = clk (Suc k), h_bbox = det_bbox det\<rparr>]
          in Inr (t\<lparr>kalman := kf',
                    hits := hits t + 1,
                    hit_streak := hit_streak t + 1,
                    time_since_update := 0,
                    trk_bbox := det_bbox det,
                    trk_confidence := det_confidence det,
                    last_update := clk k,
                    history := (if length history' > 30 then tl history' else history')\<rparr>,
                  Suc (Suc k)))"

text \<open>The dictionary \<open>Track.get_state\<close> returns (lines 91 to 103).\<close>

record track_state =
  ts_id :: int
  ts_bbox :: bbox
  ts_center :: point
  ts_velocity :: point
  ts_confidence :: real
  ts_age :: int
  ts_hits :: int
  ts_history :: "history_entry list"
  ts_last_update :: real

definition get_state :: "track \<Rightarrow> track_state" where
  "get_state t =
     \<lparr>ts_id = trk_id t,
      ts_bbox = trk_bbox t,
      ts_center = (state (kalman t) ! 0, state (kalman t) ! 1),
      ts_velocity = (state (kalman t) ! 2, state (kalman t) ! 3),
      ts_confidence = trk_confidence t,
      ts_age = age t,
      ts_hits = hits t,
      ts_history = history t,
      ts_last_update = last_update t\<rparr>"

section \<open>The tracker\<close>

text \<open>
  \<open>scipy.optimize.linear_sum_assignment\<close> is a library routine. The tracker is modelled
  for an arbitrary routine \<open>lsa\<close> that maps a cost matrix to the two index arrays
  \<open>(row_ind, col_ind)\<close>; what is proved for every \<open>lsa\<close> holds for the library's.
\<close>

type_synonym solver = "mat \<Rightarrow> nat list \<times> nat list"

text \<open>
  A reference routine with the library's contract, by exhaustive search: among the
  complete assignments (every row matched when there are no more rows than columns,
  every column otherwise) one of least total cost, the rows in ascending order. It is
  the routine of the concrete runs below.
\<close>

fun injections :: "nat \<Rightarrow> nat list \<Rightarrow> nat list list" where
  "injections 0 xs = [[]]"
| "injections (Suc k) xs = concat (map (\<lambda>x. map ((#) x) (injections k (removeAll x xs))) xs)"

definition assignment_cost :: "mat \<Rightarrow> nat list \<Rightarrow> nat list \<Rightarrow> real" where
  "assignment_cost C rows cols = sum_list (map (\<lambda>(r, c). C ! r ! c) (zip rows cols))"

definition linear_sum_assignment :: solver where
  "linear_sum_assignment C =
     (let n = length C; m = (case C of [] \<Rightarrow> 0 | r # _ \<Rightarrow> length r)
      in if n \<le> m
         then ([0..<n], arg_min_list (assignment_cost C [0..<n]) (injections n [0..<m]))
         else
           let rows = arg_min_list (\<lambda>rs. assignment_cost C rs [0..<m]) (injections m [0..<n]);
               pairs = sort_key fst (zip rows [0..<m])
           in (map fst pairs, map snd pairs))"

record object_tracker =
  tracks :: "track list"
  next_id :: int
  max_age :: int
  min_hits :: int
  iou_threshold :: real

definition ObjectTracker_init :: object_tracker where
  "ObjectTracker_init =
     \<lparr>tracks = [], next_id = 1, max_age = 30, min_hits = 3, iou_threshold = 3 / 10\<rparr>"

text \<open>
  The loop of lines 168 to 170 over \<open>zip(matched_indices[0], matched_indices[1])\<close>:
  a pair is kept when its IoU is above the threshold; reading the matrix out of range
  raises \<open>IndexError\<close>.
\<close>

fun keep_matches :: "mat \<Rightarrow> real \<Rightarrow> (nat \<times> nat) list \<Rightarrow> py_error + (nat \<times> nat) list" where
  "keep_matches iou_matrix thr [] = Inr []"
| "keep_matches iou_matrix thr ((t, d) # ps) =
     (if t < length iou_matrix \<and> d < length (iou_matrix ! t)
      then (case keep_matches iou_matrix thr ps of
              Inl e \<Rightarrow> Inl e
            | Inr ms \<Rightarrow> Inr (if iou_matrix ! t ! d > thr then (t, d) # ms else ms))
      else Inl IndexError)"

text \<open>
  \<open>ObjectTracker._associate_detections_to_tracks\<close> (lines 148 to 181). The result is
  \<open>(matched_tracks, unmatched_detections, unmatched_tracks)\<close>.
\<close>

definition associate_detections_to_tracks ::
  "solver \<Rightarrow> object_tracker \<Rightarrow> detection list \<Rightarrow> (track \<times> vec) list
   \<Rightarrow> py_error + ((nat \<times> nat) list \<times> nat list \<times> nat list)" where
  "associate_detections_to_tracks lsa s detections predicted_tracks =
     (if length predicted_tracks = 0 then Inr ([], [0..<length detections], [])
      else if length detections = 0 then Inr ([], [], [0..<length predicted_tracks])
      else
        let iou_matrix =
              map (\<lambda>(trk, pred_pos).
                     map (\<lambda>det. calculate_iou (trk_bbox trk) (det_bbox det)) detections)
                  predicted_tracks
        in if min (length predicted_tracks) (length detections) > 0
           then
             let matched_indices = lsa (map (map uminus) iou_matrix)
             in case keep_matches iou_matrix (iou_threshold s)
                       (zip (fst matched_indices) (snd matched_indices)) of
                  Inl e \<Rightarrow> Inl e
                | Inr matched_tracks \<Rightarrow>
                    Inr (matched_tracks,
                         filter (\<lambda>d. d \<notin> set (snd matched_indices)) [0..<length detections],
                         filter (\<lambda>t. t \<notin> set (fst matched_indices)) [0..<length predicted_tracks])
           else Inr ([], [0..<length detections], [0..<length predicted_tracks]))"

text \<open>
  The loop of lines 127 and 128: \<open>self.tracks[track_idx].update(detections[det_idx])\<close>
  for every matched pair, in order. An index out of range raises \<open>IndexError\<close>.
\<close>

fun update_matched ::
  "clock \<Rightarrow> detection list \<Rightarrow> (nat \<times> nat) list \<Rightarrow> track list \<Rightarrow> nat
   \<Rightarrow> py_error + (track list \<times> nat)" where
  "update_matched clk detections [] ts k = Inr (ts, k)"
| "update_matched clk detections ((track_idx, det_idx) # ms) ts k =
     (if track_idx < length ts \<and> det_idx < length detections
      then (case track_update clk (detections ! det_idx) (ts ! track_idx) k of
              Inl e \<Rightarrow> Inl e
            | Inr (t', k') \<Rightarrow> update_matched clk detections ms (ts[track_idx := t']) k')
      else Inl IndexError)"

text \<open>
  The loop of lines 131 to 134: a new track for every unmatched detection, with the next
  identifier. The indices come from \<open>range(len(detections))\<close>.
\<close>

fun create_tracks ::
  "clock \<Rightarrow> detection list \<Rightarrow> nat list \<Rightarrow> track list \<Rightarrow> int \<Rightarrow> nat
   \<Rightarrow> py_error + (track list \<times> int \<times> nat)" where
  "create_tracks clk detections [] ts nid k = Inr (ts, nid, k)"
| "create_tracks clk detections (det_idx # ds) ts nid k =
     (if det_idx < length detections
      then (let (new_track, k') = Track_init clk (detections ! det_idx) nid k
            in create_tracks clk detections ds (ts @ [new_track]) (nid + 1) k')
      else Inl IndexError)"

text \<open>The dictionary of confirmed tracks built by the loop of lines 141 to 144.\<close>

fun confirmed_tracks :: "int \<Rightarrow> track list \<Rightarrow> (int \<rightharpoonup> track_state) \<Rightarrow> (int \<rightharpoonup> track_state)" where
  "confirmed_tracks mh [] m = m"
| "confirmed_tracks mh (t # ts) m =
     confirmed_tracks mh ts (if hits t \<ge> mh then m(trk_id t \<mapsto> get_state t) else m)"

text \<open>
  \<open>ObjectTracker.update\<close> (lines 114 to 146). The state is the tracker and the number
  of clock reads; the result is the returned dictionary and the new state.
\<close>

definition update ::
  "solver \<Rightarrow> clock \<Rightarrow> detection list \<Rightarrow> object_tracker \<times> nat
   \<Rightarrow> py_error + ((int \<rightharpoonup> track_state) \<times> object_tracker \<times> nat)" where
  "update lsa clk detections w =
     (let s = fst w; k = snd w;
          predicted_tracks = map track_predict (tracks s);
          tracks1 = map fst predicted_tracks
      in case associate_detections_to_tracks lsa s detections predicted_tracks of
           Inl e \<Rightarrow> Inl e
         | Inr (matched_tracks, unmatched_detections, unmatched_tracks) \<Rightarrow>
             (case update_matched clk detections matched_tracks tracks1 k of
                Inl e \<Rightarrow> Inl e
              | Inr (tracks2, k2) \<Rightarrow>
                  (case create_tracks clk detections unmatched_detections tracks2 (next_id s) k2 of
                     Inl e \<Rightarrow> Inl e
                   | Inr (tracks3, next_id3, k3) \<Rightarrow>
                       let tracks4 = filter (\<lambda>t. time_since_update t < max_age s) tracks3
                       in Inr (confirmed_tracks (min_hits s) tracks4 Map.empty,
                               s\<lparr>tracks := tracks4, next_id := next_id3\<rparr>, k3))))"

text \<open>
  The states a tracker goes through: a fresh tracker, at any clock position, and the
  state left by every call of \<open>update\<close> that returns.
\<close>

inductive reachable :: "solver \<Rightarrow> clock \<Rightarrow> object_tracker \<times> nat \<Rightarrow> bool"
  for lsa :: solver and clk :: clock where
  reachable_init: "reachable lsa clk (ObjectTracker_init, k)"
| reachable_update:
    "reachable lsa clk w \<Longrightarrow> update lsa clk detections w = Inr (out, w') \<Longrightarrow> reachable lsa clk w'"


text \<open>The states that follow a state after any number of further calls.\<close>

inductive later :: "solver \<Rightarrow> clock \<Rightarrow> object_tracker \<times> nat \<Rightarrow> object_tracker \<times> nat \<Rightarrow> bool"
  for lsa :: solver and clk :: clock where
  later_refl: "later lsa clk w w"
| later_update:
    "later lsa clk w w1 \<Longrightarrow> update lsa clk detections w1 = Inr (out, w2) \<Longrightarrow> later lsa clk w w2"

definition track_ids :: "object_tracker \<times> nat \<Rightarrow> int set" where
  "track_ids w = trk_id ` set (tracks (fst w))"

text \<open>
  The driver calls \<open>update\<close> once for every frame (main.py, line 66); \<open>run\<close> is the
  state after a sequence of frames.
\<close>

fun run ::
  "solver \<Rightarrow> clock \<Rightarrow> detection list list \<Rightarrow> object_tracker \<times> nat
   \<Rightarrow> py_error + (object_tracker \<times> nat)" where
  "run lsa clk [] w = Inr w"
| "run lsa clk (detections # frames) w =
     (case update lsa clk detections w of
        Inl e \<Rightarrow> Inl e
      | Inr (out, w') \<Rightarrow> run lsa clk frames w')"

text \<open>
  Two detections for the concrete runs: a box of 50 by 50 pixels at \<open>(100, 100)\<close>, as
  \<open>create_mock_detection(100, 100)\<close> of test_system.py builds it, and the same box at
  \<open>(400, 400)\<close>, which it does not meet.
\<close>

definition det_near :: detection where
  "det_near = \<lparr>det_bbox = (100, 100, 150, 150), det_confidence = 8 / 10, det_class_id = 0,
                det_center = (125, 125)\<rparr>"

definition det_far :: detection where
  "det_far = \<lparr>det_bbox = (400, 400, 450, 450), det_confidence = 8 / 10, det_class_id = 0,
               det_center = (425, 425)\<rparr>"

text \<open>
  What one call may do to a track it keeps: the identifier stays, the two hit counters
  grow by the same amount.
\<close>

definition track_evolves :: "track \<Rightarrow> track \<Rightarrow> bool" where
  "track_evolves t t' \<longleftrightarrow>
     trk_id t' = trk_id t \<and> hit_streak t \<le> hit_streak t'
     \<and> hits t' - hits t = hit_streak t' - hit_streak t"

definition tracker_inv :: "object_tracker \<Rightarrow> bool" where
  "tracker_inv s \<longleftrightarrow>
     max_age s = 30 \<and> min_hits s = 3 \<and> iou_threshold s = 3 / 10
     \<and> distinct (map trk_id (tracks s))
     \<and> (\<forall>t\<in>set (tracks s). trk_id t < next_id s \<and> hit_streak t = hits t)"

section \<open>The predictor\<close>

datatype method_tag = Linear | Kalman | Combined

text \<open>A time to impact is a float or \<open>float('inf')\<close>.\<close>

datatype time_value = Finite real | PosInf

text \<open>
  A prediction is the dictionary \<open>{'status': 'insufficient_data'}\<close> or a dictionary
  with \<open>'status': 'success'\<close> and the seven entries of a forecast.
\<close>

record forecast =
  fc_method :: method_tag
  fc_trajectory :: "point list"
  fc_velocity :: point
  fc_speed :: real
  fc_impact_point :: point
  fc_time_to_impact :: time_value
  fc_confidence :: real

datatype prediction = Insufficient_data | Success forecast

record trajectory_predictor =
  prediction_time :: real
  min_history_points :: int
  frame_bounds :: "real \<times> real"

definition TrajectoryPredictor_init :: trajectory_predictor where
  "TrajectoryPredictor_init =
     \<lparr>prediction_time = 5, min_history_points = 5, frame_bounds = (1280, 720)\<rparr>"

text \<open>
  \<open>TrajectoryPredictor._calculate_impact_point\<close> (predictor.py, lines 160 to 208). An
  intersection is the triple \<open>[x, y, t]\<close>; Python's sort is stable, as \<open>sort_key\<close> is.
\<close>

definition calculate_impact_point :: "trajectory_predictor \<Rightarrow> point \<Rightarrow> point \<Rightarrow> point" where
  "calculate_impact_point p position velocity =
     (let x = fst position; y = snd position;
          vx = fst velocity; vy = snd velocity;
          width = fst (frame_bounds p); height = snd (frame_bounds p)
      in if \<bar>vx\<bar> < 1 / 10 ^ 6 \<and> \<bar>vy\<bar> < 1 / 10 ^ 6 then position
         else
           let intersections =
                 (if vx < 0
                  then (let t = - x / vx; y_intersect = y + vy * t
                        in if 0 \<le> y_intersect \<and> y_intersect \<le> height
                           then [(0, y_intersect, t)] else [])
                  else [])
                 @ (if vx > 0
                    then (let t = (width - x) / vx; y_intersect = y + vy * t
                          in if 0 \<le> y_intersect \<and> y_intersect \<le> height
                             then [(width, y_intersect, t)] else [])
                    else [])
                 @ (if vy < 0
                    then (let t = - y / vy; x_intersect = x + vx * t
                          in if 0 \<le> x_intersect \<and> x_intersect \<le> width
                             then [(x_intersect, 0, t)] else [])
                    else [])
                 @ (if vy > 0
                    then (let t = (height - y) / vy; x_intersect = x + vx * t
                          in if 0 \<le> x_intersect \<and> x_intersect \<le> width
                             then [(x_intersect, height, t)] else [])
                    else [])
           in case find (\<lambda>(ix, iy, t). t > 0) (sort_key (\<lambda>(ix, iy, t). t) intersections) of
                Some (ix, iy, t) \<Rightarrow> (ix, iy)
              | None \<Rightarrow> (x + vx * 2, y + vy * 2))"

text \<open>\<open>TrajectoryPredictor._calculate_time_to_impact\<close> (lines 210 to 229).\<close>

definition calculate_time_to_impact :: "point \<Rightarrow> point \<Rightarrow> point \<Rightarrow> time_value" where
  "calculate_time_to_impact position velocity impact_point =
     (let dx = fst impact_point - fst position;
          dy = snd impact_point - snd position;
          fallback =
            (let distance = sqrt (dx\<^sup>2 + dy\<^sup>2);
                 speed = sqrt ((fst velocity)\<^sup>2 + (snd velocity)\<^sup>2)
             in if speed > 1 / 10 ^ 6 then Finite (distance / speed) else PosInf)
      in if \<bar>fst velocity\<bar> > \<bar>snd velocity\<bar>
         then (if \<bar>fst velocity\<bar> > 1 / 10 ^ 6 then Finite (dx / fst velocity) else fallback)
         else (if \<bar>snd velocity\<bar> > 1 / 10 ^ 6 then Finite (dy / snd velocity) else fallback))"

text \<open>
  Rounding to the nearest double: the nearest multiple of the unit in the last place of
  a 53-bit mantissa, a tie going to the even multiple. The exponent is not bounded, so
  overflow and subnormal numbers are left out.
\<close>

definition pow2 :: "int \<Rightarrow> real" where
  "pow2 e = (if 0 \<le> e then 2 ^ nat e else 1 / 2 ^ nat (- e))"

definition round_half_even :: "real \<Rightarrow> int" where
  "round_half_even x =
     (let f = \<lfloor>x\<rfloor>; r = x - of_int f
      in if r < 1 / 2 then f else if r > 1 / 2 then f + 1 else if even f then f else f + 1)"

definition fl :: "real \<Rightarrow> real" where
  "fl x =
     (if x = 0 then 0
      else let ulp = pow2 (\<lfloor>log 2 \<bar>x\<bar>\<rfloor> - 52)
           in of_int (round_half_even (x / ulp)) * ulp)"

text \<open>
  \<open>np.arange(start, stop, step)\<close>, for a positive step. NumPy takes the number of
  points as the ceiling of \<open>(stop - start) / step\<close>, computed in doubles: the three
  arguments are doubles, and the difference and the quotient are rounded. From 4.3 to
  9.3 in steps of 0.1 that gives 51 points, where the exact quotient gives 50. The points
  are \<open>start + i * step\<close>.
\<close>

definition arange_count :: "real \<Rightarrow> real \<Rightarrow> real \<Rightarrow> nat" where
  "arange_count start stop step = nat \<lceil>fl (fl (fl stop - fl start) / fl step)\<rceil>"

definition arange :: "real \<Rightarrow> real \<Rightarrow> real \<Rightarrow> real list" where
  "arange start stop step =
     map (\<lambda>i. start + real i * step) [0..<arange_count start stop step]"

text \<open>
  \<open>scipy.stats.linregress\<close> is a library routine. It raises \<open>ValueError\<close> for an
  empty sample, for a sample \<open>x\<close> of more than one value whose largest and smallest
  values are equal, and for samples of different lengths; these checks are modelled.
  The numbers it returns otherwise are taken as the function \<open>linregress\<close> from the
  two samples to \<open>(slope, intercept, rvalue)\<close>, the three results the code reads. The
  samples of the model are real numbers, so a correlation that is not a number does not
  arise.
\<close>

type_synonym regression = "real list \<Rightarrow> real list \<Rightarrow> real \<times> real \<times> real"

definition identical_values :: "real list \<Rightarrow> bool" where
  \<comment> \<open>\<open>np.amax(x) == np.amin(x)\<close>\<close>
  "identical_values x \<longleftrightarrow> Max (set x) = Min (set x)"

definition linregress_call ::
  "regression \<Rightarrow> real list \<Rightarrow> real list \<Rightarrow> py_error + (real \<times> real \<times> real)" where
  "linregress_call linregress x y =
     (if x = [] \<or> y = [] then Inl ValueError
      else if identical_values x \<and> length x > 1 then Inl ValueError
      else if length x \<noteq> length y then Inl ValueError
      else Inr (linregress x y))"

text \<open>
  \<open>TrajectoryPredictor._linear_prediction\<close> (lines 34 to 78). The timestamps come
  with the positions, from the same history. The two bounds handed to \<open>np.arange\<close>,
  \<open>current_time\<close> and \<open>current_time + self.prediction_time\<close>, are the doubles
  the code computes.
\<close>

definition linear_prediction ::
  "trajectory_predictor \<Rightarrow> regression \<Rightarrow> point list \<Rightarrow> real list \<Rightarrow> py_error + prediction" where
  "linear_prediction p linregress positions timestamps =
     (if length positions < 3 then Inr Insufficient_data
      else if timestamps = [] then Inl IndexError
      else
        let dt = map (\<lambda>t. t - hd timestamps) timestamps
        in case linregress_call linregress dt (map fst positions) of
             Inl e \<Rightarrow> Inl e
           | Inr (slope_x, intercept_x, r_x) \<Rightarrow>
               (case linregress_call linregress dt (map snd positions) of
                  Inl e \<Rightarrow> Inl e
                | Inr (slope_y, intercept_y, r_y) \<Rightarrow>
                    let current_time = fl (last timestamps - hd timestamps);
                        future_times =
                          arange current_time (fl (current_time + prediction_time p)) (1 / 10);
                        trajectory =
                          map (\<lambda>t. (slope_x * t + intercept_x, slope_y * t + intercept_y))
                              future_times;
                        velocity = (slope_x, slope_y);
                        speed = sqrt (slope_x\<^sup>2 + slope_y\<^sup>2);
                        impact_point = calculate_impact_point p (last positions) velocity;
                        time_to_impact =
                          calculate_time_to_impact (last positions) velocity impact_point
                    in Inr (Success
                         \<lparr>fc_method = Linear, fc_trajectory = trajectory, fc_velocity = velocity,
                          fc_speed = speed, fc_impact_point = impact_point,
                          fc_time_to_impact = time_to_impact,
                          fc_confidence = min \<bar>r_x\<bar> \<bar>r_y\<bar>\<rparr>)))"

text \<open>\<open>TrajectoryPredictor._kalman_prediction\<close> (lines 80 to 110).\<close>

definition kalman_prediction :: "trajectory_predictor \<Rightarrow> track_state \<Rightarrow> prediction" where
  "kalman_prediction p trk =
     (let velocity = ts_velocity trk;
          position = ts_center trk;
          trajectory = map (\<lambda>t. (fst position + fst velocity * t, snd position + snd velocity * t))
                     (arange 0 (prediction_time p) (1 / 10));
          speed = sqrt ((fst velocity)\<^sup>2 + (snd velocity)\<^sup>2);
          impact_point = calculate_impact_point p position velocity;
          time_to_impact = calculate_time_to_impact position velocity impact_point
      in Success
           \<lparr>fc_method = Kalman, fc_trajectory = trajectory, fc_velocity = velocity, fc_speed = speed,
            fc_impact_point = impact_point, fc_time_to_impact = time_to_impact, fc_confidence = 8 / 10\<rparr>)"

text \<open>
  The weighted sum of two trajectories, \<open>w1 * a + w2 * b\<close> on arrays of shape
  \<open>(n, 2)\<close>: NumPy adds arrays of the same length point by point, repeats an array of
  one point, and raises \<open>ValueError\<close> for any other pair of lengths.
\<close>

definition weighted_sum ::
  "real \<Rightarrow> point list \<Rightarrow> real \<Rightarrow> point list \<Rightarrow> py_error + point list" where
  "weighted_sum w1 a w2 b =
     (let add = (\<lambda>q r. (w1 * fst q + w2 * fst r, w1 * snd q + w2 * snd r))
      in if length a = length b then Inr (map2 add a b)
         else if length a = 1 \<and> b \<noteq> [] then Inr (map (add (hd a)) b)
         else if length b = 1 \<and> a \<noteq> [] then Inr (map (\<lambda>q. add q (hd b)) a)
         else Inl ValueError)"

text \<open>\<open>TrajectoryPredictor._combine_predictions\<close> (lines 112 to 158).\<close>

definition combine_predictions :: "prediction \<Rightarrow> prediction \<Rightarrow> py_error + prediction" where
  "combine_predictions linear_pred kalman_pred =
     (case linear_pred of
        Insufficient_data \<Rightarrow> Inr kalman_pred
      | Success lp \<Rightarrow>
          (case kalman_pred of
             Insufficient_data \<Rightarrow> Inr linear_pred
           | Success kp \<Rightarrow>
               let total_weight = fc_confidence lp + fc_confidence kp
               in if total_weight = 0 then Inr kalman_pred
                  else
                    let w_linear = fc_confidence lp / total_weight;
                        w_kalman = fc_confidence kp / total_weight
                    in case weighted_sum w_linear (fc_trajectory lp) w_kalman (fc_trajectory kp) of
                         Inl e \<Rightarrow> Inl e
                       | Inr combined_trajectory \<Rightarrow>
                           let combined_velocity =
                                 (w_linear * fst (fc_velocity lp) + w_kalman * fst (fc_velocity kp),
                                  w_linear * snd (fc_velocity lp) + w_kalman * snd (fc_velocity kp));
                               combined_speed =
                                 sqrt ((fst combined_velocity)\<^sup>2 + (snd combined_velocity)\<^sup>2);
                               chosen = (if w_linear > w_kalman then lp else kp)
                           in Inr (Success
                                \<lparr>fc_method = Combined,
                                 fc_trajectory = combined_trajectory,
                                 fc_velocity = combined_velocity,
                                 fc_speed = combined_speed,
                                 fc_impact_point = fc_impact_point chosen,
                                 fc_time_to_impact = fc_time_to_impact chosen,
                                 fc_confidence = w_linear * fc_confidence lp + w_kalman * fc_confidence kp\<rparr>)))"

text \<open>\<open>TrajectoryPredictor.predict_trajectory\<close> (lines 16 to 32).\<close>

definition predict_trajectory ::
  "trajectory_predictor \<Rightarrow> regression \<Rightarrow> track_state \<Rightarrow> py_error + prediction" where
  "predict_trajectory p linregress trk =
     (if int (length (ts_history trk)) < min_history_points p then Inr Insufficient_data
      else
        let positions = map h_position (ts_history trk);
            timestamps = map h_timestamp (ts_history trk)
        in case linear_prediction p linregress positions timestamps of
             Inl e \<Rightarrow> Inl e
           | Inr linear_pred \<Rightarrow> combine_predictions linear_pred (kalman_prediction p trk))"

text \<open>
  Values for the concrete runs of the predictor. A snapshot with five history entries on
  the line \<open>x = 100 + 10 t\<close>, \<open>y = 100\<close>, one per second; a regression that returns
  the fit of that line for the first coordinate and the flat fit, with correlation 0, for
  the second; and two forecasts with different impact points.
\<close>

definition snapshot_line :: track_state where
  "snapshot_line =
     \<lparr>ts_id = 1, ts_bbox = (115, 75, 165, 125), ts_center = (140, 100), ts_velocity = (10, 0),
      ts_confidence = 8 / 10, ts_age = 5, ts_hits = 6,
      ts_history =
        map (\<lambda>i. \<lparr>h_position = (100 + 10 * real i, 100), h_timestamp = real i,
                  h_bbox = (75 + 10 * real i, 75, 125 + 10 * real i, 125)\<rparr>) [0..<5],
      ts_last_update = 4\<rparr>"

definition regression_line :: regression where
  "regression_line dt ys = (if ys = [100, 110, 120, 130, 140] then (10, 100, 1) else (0, 100, 0))"




text \<open>
  The number of points of the linear forecast's trajectory for a snapshot: the count of
  \<open>np.arange(current_time, current_time + 5.0, 0.1)\<close>, where \<open>current_time\<close> is the
  time from the first to the last history entry, as doubles.
\<close>

definition linear_points :: "track_state \<Rightarrow> nat" where
  "linear_points trk =
     (let timestamps = map h_timestamp (ts_history trk);
          current_time = fl (last timestamps - hd timestamps)
      in arange_count current_time (fl (current_time + 5)) (1 / 10))"

definition forecast_linear :: "real \<Rightarrow> forecast" where
  "forecast_linear c =
     \<lparr>fc_method = Linear, fc_trajectory = [(100, 10)], fc_velocity = (10, 0), fc_speed = 10,
      fc_impact_point = (1280, 10), fc_time_to_impact = Finite 5, fc_confidence = c\<rparr>"

definition forecast_kalman :: forecast where
  "forecast_kalman =
     \<lparr>fc_method = Kalman, fc_trajectory = [(100, 20)], fc_velocity = (20, 0), fc_speed = 20,
      fc_impact_point = (1280, 20), fc_time_to_impact = Finite 3, fc_confidence = 8 / 10\<rparr>"

section \<open>Properties of the IoU\<close>

lemma midpoint_between: "(p::real) < q \<Longrightarrow> p < (p + q) / 2 \<and> (p + q) / 2 < q"
  by (simp add: field_simps)

lemma calculate_iou_commute: "calculate_iou a b = calculate_iou b a"
proof -
  obtain a1 a2 a3 a4 where a: "a = (a1, a2, a3, a4)" by (cases a) auto
  obtain b1 b2 b3 b4 where b: "b = (b1, b2, b3, b4)" by (cases b) auto
  show ?thesis
    unfolding a b by (simp add: Let_def max.commute min.commute add.commute)
qed

lemma calculate_iou_self:
  assumes "x1 < x2" and "y1 < y2"
  shows "calculate_iou (x1, y1, x2, y2) (x1, y1, x2, y2) = 1"
proof -
  have "0 < (x2 - x1) * (y2 - y1)" using assms by simp
  then show ?thesis using assms by (simp add: Let_def)
qed

lemma calculate_iou_disjoint:
  assumes "box_interior a \<inter> box_interior b = {}"
  shows "calculate_iou a b = 0"
proof -
  obtain a1 a2 a3 a4 where a: "a = (a1, a2, a3, a4)" by (cases a) auto
  obtain b1 b2 b3 b4 where b: "b = (b1, b2, b3, b4)" by (cases b) auto
  have "min a3 b3 \<le> max a1 b1 \<or> min a4 b4 \<le> max a2 b2"
  proof (rule ccontr)
    assume "\<not> ?thesis"
    then have lt: "max a1 b1 < min a3 b3" "max a2 b2 < min a4 b4" by auto
    define mx where "mx = (max a1 b1 + min a3 b3) / 2"
    define my where "my = (max a2 b2 + min a4 b4) / 2"
    have "max a1 b1 < mx \<and> mx < min a3 b3" "max a2 b2 < my \<and> my < min a4 b4"
      unfolding mx_def my_def by (rule midpoint_between [OF lt(1)], rule midpoint_between [OF lt(2)])
    then have "(mx, my) \<in> box_interior a \<inter> box_interior b"
      by (simp add: a b box_interior_def)
    with assms show False by blast
  qed
  then show ?thesis by (auto simp: a b Let_def)
qed

text \<open>
  C9: the IoU function is symmetric, the IoU of a box of positive area with itself is 1,
  and the IoU of two boxes that do not overlap is 0.
\<close>

theorem iou_symmetric_self_disjoint:
  "calculate_iou a b = calculate_iou b a
   \<and> (x1 < x2 \<and> y1 < y2 \<longrightarrow> calculate_iou (x1, y1, x2, y2) (x1, y1, x2, y2) = 1)
   \<and> (box_interior a \<inter> box_interior b = {} \<longrightarrow> calculate_iou a b = 0)"
  using calculate_iou_commute calculate_iou_self calculate_iou_disjoint by blast

theorem iou_symmetric_self_disjoint_witness:
  "calculate_iou (0, 0, 2, 2) (1, 1, 3, 3) = calculate_iou (1, 1, 3, 3) (0, 0, 2, 2)
   \<and> calculate_iou (0, 0, 2, 2) (1, 1, 3, 3) = 1 / 7
   \<and> (0::real) < 2 \<and> calculate_iou (0, 0, 2, 2) (0, 0, 2, 2) = 1
   \<and> box_interior (0, 0, 1, 1) \<inter> box_interior (1, 0, 2, 1) = {}
   \<and> calculate_iou (0, 0, 1, 1) (1, 0, 2, 1) = 0"
proof -
  have d: "box_interior (0, 0, 1, 1) \<inter> box_interior (1, 0, 2, 1) = {}"
    by (auto simp: box_interior_def)
  have "calculate_iou (0, 0, 2, 2) (1, 1, 3, 3) = calculate_iou (1, 1, 3, 3) (0, 0, 2, 2)"
    using iou_symmetric_self_disjoint [of "(0, 0, 2, 2)" "(1, 1, 3, 3)"] by blast
  moreover have "calculate_iou (0, 0, 2, 2) (0, 0, 2, 2) = 1"
    using iou_symmetric_self_disjoint [of "(0, 0, 2, 2)" "(0, 0, 2, 2)" 0 2 0 2] by simp
  moreover have "calculate_iou (0, 0, 1, 1) (1, 0, 2, 1) = 0"
    using iou_symmetric_self_disjoint [of "(0, 0, 1, 1)" "(1, 0, 2, 1)"] d by blast
  moreover have "calculate_iou (0, 0, 2, 2) (1, 1, 3, 3) = 1 / 7"
    by (simp add: Let_def)
  ultimately show ?thesis using d by simp
qed

section \<open>Properties of tracks and of the tracker\<close>

lemmas eval_defs = update_def associate_detections_to_tracks_def track_predict_def
  KalmanFilter_predict_def KalmanFilter_update_def track_update_def Track_init_def
  KalmanFilter_init_def ObjectTracker_init_def det_near_def det_far_def
  linear_sum_assignment_def assignment_cost_def
  mat_mul_def mat_vec_def mat_add_def mat_sub_def vec_add_def vec_sub_def dot_def eye_def
  kf_F_def kf_H_def kf_Q_def kf_R_def Let_def get_state_def

lemma track_evolves_refl: "track_evolves t t"
  by (simp add: track_evolves_def)

lemma track_evolves_trans: "track_evolves a b \<Longrightarrow> track_evolves b c \<Longrightarrow> track_evolves a c"
  by (auto simp: track_evolves_def)

lemma track_predict_fields:
  "trk_id (fst (track_predict t)) = trk_id t"
  "hits (fst (track_predict t)) = hits t"
  "hit_streak (fst (track_predict t)) = hit_streak t"
  "time_since_update (fst (track_predict t)) = time_since_update t + 1"
  by (simp_all add: track_predict_def Let_def split: prod.splits)

lemma track_predict_evolves: "track_evolves t (fst (track_predict t))"
  by (simp add: track_evolves_def track_predict_fields)

lemma track_update_fields:
  assumes "track_update clk det t k = Inr (t', k')"
  shows "trk_id t' = trk_id t" "hits t' = hits t + 1" "hit_streak t' = hit_streak t + 1"
    "time_since_update t' = 0" "k' = Suc (Suc k)"
  using assms by (auto simp: track_update_def Let_def split: sum.splits)

lemma track_update_evolves: "track_update clk det t k = Inr (t', k') \<Longrightarrow> track_evolves t t'"
  by (simp add: track_evolves_def track_update_fields)

lemma list_all2_evolves_refl: "list_all2 track_evolves ts ts"
  by (simp add: list_all2_refl track_evolves_refl)

lemma list_all2_evolves_trans:
  "list_all2 track_evolves xs ys \<Longrightarrow> list_all2 track_evolves ys zs \<Longrightarrow> list_all2 track_evolves xs zs"
  by (rule list_all2_trans [of track_evolves track_evolves track_evolves])
     (auto intro: track_evolves_trans)

lemma list_all2_evolves_update:
  assumes "i < length ts" and "track_evolves (ts ! i) t'"
  shows "list_all2 track_evolves ts (ts[i := t'])"
  using assms by (auto simp: list_all2_conv_all_nth nth_list_update track_evolves_refl)

lemma update_matched_evolves:
  "update_matched clk dets ms ts k = Inr (ts', k') \<Longrightarrow> list_all2 track_evolves ts ts'"
proof (induction ms arbitrary: ts k)
  case Nil
  then show ?case by (simp add: list_all2_evolves_refl)
next
  case (Cons m ms)
  obtain ti di where m: "m = (ti, di)" by (cases m)
  from Cons.prems obtain t1 k1 where
    rng: "ti < length ts" "di < length dets"
    and tu: "track_update clk (dets ! di) (ts ! ti) k = Inr (t1, k1)"
    and rest: "update_matched clk dets ms (ts[ti := t1]) k1 = Inr (ts', k')"
    by (auto simp: m split: if_splits sum.splits)
  have "list_all2 track_evolves ts (ts[ti := t1])"
    using rng(1) track_update_evolves [OF tu] by (rule list_all2_evolves_update)
  moreover have "list_all2 track_evolves (ts[ti := t1]) ts'"
    using Cons.IH [OF rest] .
  ultimately show ?case by (rule list_all2_evolves_trans)
qed

lemma map_predict_evolves: "list_all2 track_evolves ts (map fst (map track_predict ts))"
  by (simp add: list_all2_conv_all_nth track_predict_evolves)

lemma create_tracks_append:
  "create_tracks clk dets ds ts nid k = Inr (ts', nid', k') \<Longrightarrow>
   \<exists>new. ts' = ts @ new \<and> nid \<le> nid' \<and> distinct (map trk_id new)
     \<and> (\<forall>t\<in>set new. nid \<le> trk_id t \<and> trk_id t < nid' \<and> hits t = 1 \<and> hit_streak t = 1
            \<and> time_since_update t = 0)"
proof (induction ds arbitrary: ts nid k)
  case Nil
  then show ?case by simp
next
  case (Cons d ds)
  define nt where "nt = fst (Track_init clk (dets ! d) nid k)"
  have nt: "trk_id nt = nid" "hits nt = 1" "hit_streak nt = 1" "time_since_update nt = 0"
    by (simp_all add: nt_def Track_init_def)
  from Cons.prems have rest:
    "create_tracks clk dets ds (ts @ [nt]) (nid + 1) (Suc k) = Inr (ts', nid', k')"
    by (auto simp: nt_def Track_init_def split: if_splits)
  from Cons.IH [OF rest] obtain new where new:
    "ts' = (ts @ [nt]) @ new" "nid + 1 \<le> nid'" "distinct (map trk_id new)"
    "\<forall>t\<in>set new. nid + 1 \<le> trk_id t \<and> trk_id t < nid' \<and> hits t = 1 \<and> hit_streak t = 1
        \<and> time_since_update t = 0"
    by blast
  have "ts' = ts @ (nt # new)" using new(1) by simp
  moreover have "nid \<le> nid'" using new(2) by simp
  moreover have "distinct (map trk_id (nt # new))" using new(3,4) nt(1) by auto
  moreover have "\<forall>t\<in>set (nt # new). nid \<le> trk_id t \<and> trk_id t < nid' \<and> hits t = 1
        \<and> hit_streak t = 1 \<and> time_since_update t = 0"
    using new(2,4) nt by auto
  ultimately show ?case by blast
qed

lemma confirmed_tracks_dom:
  "dom (confirmed_tracks mh ts m) = dom m \<union> {trk_id t |t. t \<in> set ts \<and> mh \<le> hits t}"
  by (induction ts arbitrary: m) auto

lemma confirmed_tracks_notin:
  "i \<notin> trk_id ` set ts \<Longrightarrow> confirmed_tracks mh ts m i = m i"
  by (induction ts arbitrary: m) auto

lemma confirmed_tracks_lookup:
  "distinct (map trk_id ts) \<Longrightarrow> t \<in> set ts \<Longrightarrow>
   confirmed_tracks mh ts m (trk_id t) = (if mh \<le> hits t then Some (get_state t) else m (trk_id t))"
proof (induction ts arbitrary: m)
  case Nil
  then show ?case by simp
next
  case (Cons a ts)
  show ?case
  proof (cases "t = a")
    case True
    have "trk_id a \<notin> trk_id ` set ts" using Cons.prems(1) by simp
    then show ?thesis by (simp add: True confirmed_tracks_notin)
  next
    case False
    then have "t \<in> set ts" using Cons.prems(2) by simp
    moreover have "distinct (map trk_id ts)" using Cons.prems(1) by simp
    moreover have "trk_id a \<notin> trk_id ` set ts" using Cons.prems(1) by simp
    then have "trk_id t \<noteq> trk_id a" using \<open>t \<in> set ts\<close> by (metis imageI)
    ultimately show ?thesis using Cons.IH by simp
  qed
qed


lemma list_all2_evolves_ids:
  "list_all2 track_evolves ts ts' \<Longrightarrow> map trk_id ts' = map trk_id ts"
  by (induction rule: list_all2_induct) (auto simp: track_evolves_def)

lemma list_all2_evolves_streak:
  "list_all2 track_evolves ts ts' \<Longrightarrow> \<forall>t\<in>set ts. hit_streak t = hits t \<Longrightarrow>
   \<forall>t\<in>set ts'. hit_streak t = hits t"
  by (induction rule: list_all2_induct) (auto simp: track_evolves_def)

lemma update_step:
  assumes "update lsa clk dets w = Inr (out, w')"
  obtains old new where
    "list_all2 track_evolves (tracks (fst w)) old"
    "tracks (fst w') = filter (\<lambda>t. time_since_update t < max_age (fst w)) (old @ new)"
    "distinct (map trk_id new)"
    "\<forall>t\<in>set new. next_id (fst w) \<le> trk_id t \<and> trk_id t < next_id (fst w') \<and> hits t = 1
        \<and> hit_streak t = 1 \<and> time_since_update t = 0"
    "next_id (fst w) \<le> next_id (fst w')"
    "max_age (fst w') = max_age (fst w)"
    "min_hits (fst w') = min_hits (fst w)"
    "iou_threshold (fst w') = iou_threshold (fst w)"
    "out = confirmed_tracks (min_hits (fst w)) (tracks (fst w')) Map.empty"
proof -
  obtain s k where w: "w = (s, k)" by (cases w)
  let ?pred = "map track_predict (tracks s)"
  from assms obtain matched ud ut tracks2 k2 tracks3 nid3 k3 where
    um: "update_matched clk dets matched (map fst ?pred) k = Inr (tracks2, k2)"
    and ct: "create_tracks clk dets ud tracks2 (next_id s) k2 = Inr (tracks3, nid3, k3)"
    and out: "out = confirmed_tracks (min_hits s)
                (filter (\<lambda>t. time_since_update t < max_age s) tracks3) Map.empty"
    and w': "w' = (s\<lparr>tracks := filter (\<lambda>t. time_since_update t < max_age s) tracks3,
                     next_id := nid3\<rparr>, k3)"
    by (auto simp: update_def w Let_def split: sum.splits prod.splits)
  from create_tracks_append [OF ct] obtain new where new:
    "tracks3 = tracks2 @ new" "next_id s \<le> nid3" "distinct (map trk_id new)"
    "\<forall>t\<in>set new. next_id s \<le> trk_id t \<and> trk_id t < nid3 \<and> hits t = 1 \<and> hit_streak t = 1
        \<and> time_since_update t = 0"
    by blast
  have ev: "list_all2 track_evolves (tracks s) tracks2"
    using map_predict_evolves update_matched_evolves [OF um] by (rule list_all2_evolves_trans)
  show thesis
    by (rule that [of tracks2 new]) (use ev new out in \<open>simp_all add: w w'\<close>)
qed

lemma update_preserves_inv:
  assumes "update lsa clk dets w = Inr (out, w')" and "tracker_inv (fst w)"
  shows "tracker_inv (fst w')"
proof -
  from assms(1) obtain old new where st:
    "list_all2 track_evolves (tracks (fst w)) old"
    "tracks (fst w') = filter (\<lambda>t. time_since_update t < max_age (fst w)) (old @ new)"
    "distinct (map trk_id new)"
    "\<forall>t\<in>set new. next_id (fst w) \<le> trk_id t \<and> trk_id t < next_id (fst w') \<and> hits t = 1
        \<and> hit_streak t = 1 \<and> time_since_update t = 0"
    "next_id (fst w) \<le> next_id (fst w')"
    "max_age (fst w') = max_age (fst w)"
    "min_hits (fst w') = min_hits (fst w)"
    "iou_threshold (fst w') = iou_threshold (fst w)"
    by (rule update_step)
  have ids: "map trk_id old = map trk_id (tracks (fst w))"
    using st(1) by (rule list_all2_evolves_ids)
  have old_lt: "\<forall>t\<in>set old. trk_id t < next_id (fst w)"
  proof
    fix t assume "t \<in> set old"
    then have "trk_id t \<in> set (map trk_id (tracks (fst w)))" using ids by (metis imageI set_map)
    then show "trk_id t < next_id (fst w)" using assms(2) by (auto simp: tracker_inv_def)
  qed
  have old_streak: "\<forall>t\<in>set old. hit_streak t = hits t"
    using st(1) assms(2) by (auto intro: list_all2_evolves_streak [rule_format] simp: tracker_inv_def)
  have "distinct (map trk_id old)" using ids assms(2) by (simp add: tracker_inv_def)
  moreover have "set (map trk_id old) \<inter> set (map trk_id new) = {}"
    using old_lt st(4) by fastforce
  ultimately have "distinct (map trk_id (old @ new))" using st(3) by simp
  then have d: "distinct (map trk_id (tracks (fst w')))"
    unfolding st(2) by (rule distinct_map_filter)
  have "\<forall>t\<in>set (old @ new). trk_id t < next_id (fst w') \<and> hit_streak t = hits t"
    using old_lt old_streak st(4,5) by fastforce
  then have "\<forall>t\<in>set (tracks (fst w')). trk_id t < next_id (fst w') \<and> hit_streak t = hits t"
    unfolding st(2) by auto
  with d st(6,7,8) assms(2) show ?thesis by (simp add: tracker_inv_def)
qed

lemma init_inv: "tracker_inv ObjectTracker_init"
  by (simp add: tracker_inv_def ObjectTracker_init_def)

lemma reachable_inv: "reachable lsa clk w \<Longrightarrow> tracker_inv (fst w)"
  by (induction rule: reachable.induct) (auto intro: init_inv update_preserves_inv)

lemma update_old_ids:
  assumes "update lsa clk dets w = Inr (out, w')" and "tracker_inv (fst w)"
    and "t' \<in> set (tracks (fst w'))" and "trk_id t' < next_id (fst w)"
  shows "trk_id t' \<in> track_ids w"
proof -
  from assms(1) obtain old new where st:
    "list_all2 track_evolves (tracks (fst w)) old"
    "tracks (fst w') = filter (\<lambda>t. time_since_update t < max_age (fst w)) (old @ new)"
    "\<forall>t\<in>set new. next_id (fst w) \<le> trk_id t \<and> trk_id t < next_id (fst w') \<and> hits t = 1
        \<and> hit_streak t = 1 \<and> time_since_update t = 0"
    by (rule update_step)
  have "t' \<in> set old \<or> t' \<in> set new" using assms(3) st(2) by auto
  moreover have "t' \<notin> set new" using st(3) assms(4) by fastforce
  ultimately have "t' \<in> set old" by simp
  then have "trk_id t' \<in> set (map trk_id old)" by simp
  then show ?thesis
    unfolding list_all2_evolves_ids [OF st(1)] by (simp add: track_ids_def)
qed

lemma later_inv:
  "later lsa clk w w' \<Longrightarrow> tracker_inv (fst w) \<Longrightarrow>
   tracker_inv (fst w') \<and> next_id (fst w) \<le> next_id (fst w')
   \<and> (\<forall>i\<in>track_ids w'. i < next_id (fst w) \<longrightarrow> i \<in> track_ids w)"
proof (induction rule: later.induct)
  case (later_refl w)
  then show ?case by simp
next
  case (later_update w w1 detections out w2)
  then have ih: "tracker_inv (fst w1)" "next_id (fst w) \<le> next_id (fst w1)"
    "\<forall>i\<in>track_ids w1. i < next_id (fst w) \<longrightarrow> i \<in> track_ids w" by auto
  have inv2: "tracker_inv (fst w2)"
    using later_update.hyps(2) ih(1) by (rule update_preserves_inv)
  have mono: "next_id (fst w1) \<le> next_id (fst w2)"
    using later_update.hyps(2) by (rule update_step)
  have "\<forall>i\<in>track_ids w2. i < next_id (fst w) \<longrightarrow> i \<in> track_ids w"
  proof (intro ballI impI)
    fix i assume i: "i \<in> track_ids w2" "i < next_id (fst w)"
    then obtain t' where t': "t' \<in> set (tracks (fst w2))" "trk_id t' = i"
      by (auto simp: track_ids_def)
    have "trk_id t' < next_id (fst w1)" using t'(2) i(2) ih(2) by simp
    from update_old_ids [OF later_update.hyps(2) ih(1) t'(1) this]
    have "i \<in> track_ids w1" using t'(2) by simp
    with ih(3) i(2) show "i \<in> track_ids w" by blast
  qed
  with inv2 ih(2) mono show ?case by simp
qed

lemma run_reachable:
  "reachable lsa clk w \<Longrightarrow> run lsa clk frames w = Inr w' \<Longrightarrow> reachable lsa clk w'"
proof (induction frames arbitrary: w)
  case Nil
  then show ?case by simp
next
  case (Cons dets frames)
  from Cons.prems(2) obtain out w1 where
    u: "update lsa clk dets w = Inr (out, w1)" and r: "run lsa clk frames w1 = Inr w'"
    by (auto split: sum.splits)
  have "reachable lsa clk w1" using Cons.prems(1) u by (rule reachable_update)
  then show ?case using r by (rule Cons.IH)
qed

lemma update_streak_mono:
  assumes "update lsa clk dets w = Inr (out, w')" and "tracker_inv (fst w)"
    and "t \<in> set (tracks (fst w))" and "t' \<in> set (tracks (fst w'))" and "trk_id t' = trk_id t"
  shows "hit_streak t \<le> hit_streak t'"
proof -
  from assms(1) obtain old new where st:
    "list_all2 track_evolves (tracks (fst w)) old"
    "tracks (fst w') = filter (\<lambda>t. time_since_update t < max_age (fst w)) (old @ new)"
    "\<forall>t\<in>set new. next_id (fst w) \<le> trk_id t \<and> trk_id t < next_id (fst w') \<and> hits t = 1
        \<and> hit_streak t = 1 \<and> time_since_update t = 0"
    by (rule update_step)
  have "trk_id t < next_id (fst w)" using assms(2,3) by (simp add: tracker_inv_def)
  then have "t' \<notin> set new" using st(3) assms(5) by fastforce
  moreover have "t' \<in> set old \<or> t' \<in> set new" using assms(4) st(2) by auto
  ultimately have "t' \<in> set old" by simp
  then obtain j where j: "j < length old" "old ! j = t'" by (auto simp: in_set_conv_nth)
  have len: "length (tracks (fst w)) = length old" using st(1) by (rule list_all2_lengthD)
  have ev: "track_evolves (tracks (fst w) ! j) t'"
    using st(1) j by (auto simp: list_all2_conv_all_nth)
  obtain i where i: "i < length (tracks (fst w))" "tracks (fst w) ! i = t"
    using assms(3) by (auto simp: in_set_conv_nth)
  have d: "distinct (map trk_id (tracks (fst w)))" using assms(2) by (simp add: tracker_inv_def)
  have "map trk_id (tracks (fst w)) ! i = map trk_id (tracks (fst w)) ! j"
    using i j len ev assms(5) by (simp add: track_evolves_def)
  moreover have "i < length (map trk_id (tracks (fst w)))" "j < length (map trk_id (tracks (fst w)))"
    using i(1) j(1) len by simp_all
  ultimately have "i = j" using d nth_eq_iff_index_eq by blast
  then show ?thesis using ev i(2) by (simp add: track_evolves_def)
qed

text \<open>
  What the loop of lines 168 to 170 keeps: every pair it returns has an IoU strictly above
  the threshold.
\<close>

lemma keep_matches_above:
  "keep_matches iou_matrix thr ps = Inr ms \<Longrightarrow> \<forall>(t, d)\<in>set ms. iou_matrix ! t ! d > thr"
proof (induction ps arbitrary: ms)
  case Nil
  then show ?case by simp
next
  case (Cons p ps)
  obtain t d where p: "p = (t, d)" by (cases p)
  from Cons.prems obtain ms' where
    r: "keep_matches iou_matrix thr ps = Inr ms'"
    and ms: "ms = (if iou_matrix ! t ! d > thr then (t, d) # ms' else ms')"
    by (auto simp: p split: if_splits sum.splits)
  from Cons.IH [OF r] show ?case by (auto simp: ms)
qed

text \<open>
  C1: every matched pair has an IoU above 0.3, and a track and a detection whose pair
  is discarded for an IoU of at most 0.3 are unmatched: the detection starts a new track.
  The code keeps only pairs above the threshold (\<open>keep_matches_above\<close>), but it
  computes the unmatched detections and tracks from the indices the assignment returned,
  before the threshold is applied, so the detection of a discarded pair is in neither list.
  The run: a first frame with the detection \<open>det_near\<close> creates track 1; the second
  frame holds the one detection \<open>det_far\<close>, whose box does not meet the track's. The
  assignment of the 1 by 1 matrix pairs them, the pair is discarded, and the association
  returns no match, no unmatched detection and no unmatched track: after the second frame
  the tracker still holds track 1 alone, not updated, and the next identifier is still 2.
\<close>

theorem unmatched_detection_dropped:
  "calculate_iou (det_bbox det_near) (det_bbox det_far) = 0
   \<and> associate_detections_to_tracks linear_sum_assignment ObjectTracker_init [det_far]
        (map track_predict [fst (Track_init real det_near 1 0)]) = Inr ([], [], [])
   \<and> map_sum id
        (\<lambda>w. (map (\<lambda>t. (trk_id t, trk_bbox t, hits t, time_since_update t)) (tracks (fst w)),
              next_id (fst w)))
        (run linear_sum_assignment real [[det_near], [det_far]] (ObjectTracker_init, 0))
      = Inr ([(1, (100, 100, 150, 150), 1, 1)], 2)"
  by (simp add: eval_defs)

text \<open>
  C2: the dictionary a call of \<open>update\<close> returns holds exactly the tracks of the
  active set with at least 3 hits, under their identifiers, whatever their
  \<open>time_since_update\<close>; a track with fewer than 3 hits is not in it.
\<close>

theorem update_returns_confirmed:
  assumes "reachable lsa clk w" and "update lsa clk dets w = Inr (out, w')"
  shows "dom out = {trk_id t |t. t \<in> set (tracks (fst w')) \<and> 3 \<le> hits t}
    \<and> (\<forall>t\<in>set (tracks (fst w')).
          out (trk_id t) = (if 3 \<le> hits t then Some (get_state t) else None))"
proof -
  have inv: "tracker_inv (fst w)" using assms(1) by (rule reachable_inv)
  have inv': "tracker_inv (fst w')" using assms(2) inv by (rule update_preserves_inv)
  have out: "out = confirmed_tracks (min_hits (fst w)) (tracks (fst w')) Map.empty"
    using assms(2) by (rule update_step)
  have mh: "min_hits (fst w) = 3" using inv by (simp add: tracker_inv_def)
  have d: "distinct (map trk_id (tracks (fst w')))" using inv' by (simp add: tracker_inv_def)
  have "dom out = {trk_id t |t. t \<in> set (tracks (fst w')) \<and> 3 \<le> hits t}"
    unfolding out mh by (simp add: confirmed_tracks_dom)
  moreover have "\<forall>t\<in>set (tracks (fst w')).
          out (trk_id t) = (if 3 \<le> hits t then Some (get_state t) else None)"
    unfolding out mh using d by (simp add: confirmed_tracks_lookup)
  ultimately show ?thesis by simp
qed

theorem update_returns_confirmed_witness:
  "\<exists>w out w'. reachable linear_sum_assignment real w
     \<and> update linear_sum_assignment real [det_near, det_far] w = Inr (out, w')
     \<and> map (\<lambda>t. (trk_id t, hits t)) (tracks (fst w')) = [(1, 3), (2, 1)]
     \<and> dom out = {1} \<and> out 1 = Some (get_state (hd (tracks (fst w')))) \<and> out 2 = None"
proof -
  have "\<exists>w out w'.
      run linear_sum_assignment real [[det_near], [det_near]] (ObjectTracker_init, 0) = Inr w
    \<and> update linear_sum_assignment real [det_near, det_far] w = Inr (out, w')
    \<and> map (\<lambda>t. (trk_id t, hits t)) (tracks (fst w')) = [(1, 3), (2, 1)]"
    by (simp add: eval_defs eval_nat_numeral)
  then obtain w out w' where
    r: "run linear_sum_assignment real [[det_near], [det_near]] (ObjectTracker_init, 0) = Inr w"
    and u: "update linear_sum_assignment real [det_near, det_far] w = Inr (out, w')"
    and m: "map (\<lambda>t. (trk_id t, hits t)) (tracks (fst w')) = [(1, 3), (2, 1)]"
    by (elim exE conjE) (rule that)
  have reach: "reachable linear_sum_assignment real w"
    using reachable_init r by (rule run_reachable)
  obtain t1 t2 where t: "tracks (fst w') = [t1, t2]" "trk_id t1 = 1" "hits t1 = 3"
    "trk_id t2 = 2" "hits t2 = 1"
    using m by (auto simp: map_eq_Cons_conv)
  have c: "dom out = {trk_id t |t. t \<in> set (tracks (fst w')) \<and> 3 \<le> hits t}
    \<and> (\<forall>t\<in>set (tracks (fst w')).
          out (trk_id t) = (if 3 \<le> hits t then Some (get_state t) else None))"
    using reach u by (rule update_returns_confirmed)
  have "dom out = {1}" using c t by auto
  moreover have "out 1 = Some (get_state (hd (tracks (fst w'))))" using c t by auto
  moreover have "out 2 = None" using c t by auto
  ultimately have c': "dom out = {1} \<and> out 1 = Some (get_state (hd (tracks (fst w')))) \<and> out 2 = None"
    by simp
  show ?thesis
    by (rule exI [of _ w], rule exI [of _ out], rule exI [of _ w'])
       (use reach u m c' in simp)
qed

text \<open>
  C3: after a call of \<open>update\<close> no track with \<open>time_since_update\<close> of 30 or more
  is in the active set; a new track takes an identifier above every identifier in use;
  and an identifier that a call removed is in no later state and in no later result.
\<close>

theorem removal_monotonic:
  assumes "reachable lsa clk w" and "update lsa clk dets w = Inr (out, w1)"
  shows "(\<forall>t\<in>set (tracks (fst w1)). time_since_update t < 30)
     \<and> (\<forall>t\<in>set (tracks (fst w1)). trk_id t \<notin> track_ids w \<longrightarrow>
           next_id (fst w) \<le> trk_id t \<and> (\<forall>i\<in>track_ids w. i < trk_id t))
     \<and> (\<forall>i w2 dets' out' w3.
           i \<in> track_ids w \<and> i \<notin> track_ids w1 \<and> later lsa clk w1 w2
           \<and> update lsa clk dets' w2 = Inr (out', w3)
           \<longrightarrow> out' i = None \<and> i \<notin> track_ids w3)"
proof -
  have inv: "tracker_inv (fst w)" using assms(1) by (rule reachable_inv)
  have inv1: "tracker_inv (fst w1)" using assms(2) inv by (rule update_preserves_inv)
  have ids_lt: "\<forall>i\<in>track_ids w. i < next_id (fst w)"
    using inv by (auto simp: tracker_inv_def track_ids_def)
  have mono: "next_id (fst w) \<le> next_id (fst w1)" using assms(2) by (rule update_step)
  have a: "\<forall>t\<in>set (tracks (fst w1)). time_since_update t < 30"
  proof -
    from assms(2) obtain old new where
      "tracks (fst w1) = filter (\<lambda>t. time_since_update t < max_age (fst w)) (old @ new)"
      by (rule update_step)
    then show ?thesis using inv by (auto simp: tracker_inv_def)
  qed
  have b: "\<forall>t\<in>set (tracks (fst w1)). trk_id t \<notin> track_ids w \<longrightarrow>
           next_id (fst w) \<le> trk_id t \<and> (\<forall>i\<in>track_ids w. i < trk_id t)"
  proof (intro ballI impI)
    fix t assume t: "t \<in> set (tracks (fst w1))" "trk_id t \<notin> track_ids w"
    have "\<not> trk_id t < next_id (fst w)"
      using update_old_ids [OF assms(2) inv t(1)] t(2) by blast
    then show "next_id (fst w) \<le> trk_id t \<and> (\<forall>i\<in>track_ids w. i < trk_id t)"
      using ids_lt by fastforce
  qed
  have c: "out' i = None \<and> i \<notin> track_ids w3"
    if h: "i \<in> track_ids w \<and> i \<notin> track_ids w1 \<and> later lsa clk w1 w2
           \<and> update lsa clk dets' w2 = Inr (out', w3)" for i w2 dets' out' w3
  proof -
    have lt: "i < next_id (fst w1)" using h ids_lt mono by fastforce
    have "later lsa clk w1 w3" using h by (blast intro: later_update)
    from later_inv [OF this inv1] have "\<forall>j\<in>track_ids w3. j < next_id (fst w1) \<longrightarrow> j \<in> track_ids w1"
      by simp
    with lt h have notin: "i \<notin> track_ids w3" by blast
    have "out' = confirmed_tracks (min_hits (fst w2)) (tracks (fst w3)) Map.empty"
      using h by (blast intro: update_step)
    with notin show ?thesis by (simp add: track_ids_def confirmed_tracks_notin)
  qed
  from a b c show ?thesis by blast
qed

theorem removal_monotonic_witness:
  "\<exists>w out w1 out' w3.
      reachable linear_sum_assignment real w
    \<and> update linear_sum_assignment real [] w = Inr (out, w1)
    \<and> map (\<lambda>t. (trk_id t, time_since_update t)) (tracks (fst w)) = [(1, 29)]
    \<and> tracks (fst w1) = []
    \<and> later linear_sum_assignment real w1 w1
    \<and> update linear_sum_assignment real [det_near] w1 = Inr (out', w3)
    \<and> map (\<lambda>t. (trk_id t, time_since_update t)) (tracks (fst w3)) = [(2, 0)]
    \<and> out' 1 = None \<and> 1 \<notin> track_ids w3"
proof -
  have "\<exists>w out w1 out' w3.
      run linear_sum_assignment real ([det_near] # replicate 29 []) (ObjectTracker_init, 0) = Inr w
    \<and> map (\<lambda>t. (trk_id t, time_since_update t)) (tracks (fst w)) = [(1, 29)]
    \<and> update linear_sum_assignment real [] w = Inr (out, w1)
    \<and> tracks (fst w1) = []
    \<and> update linear_sum_assignment real [det_near] w1 = Inr (out', w3)
    \<and> map (\<lambda>t. (trk_id t, time_since_update t)) (tracks (fst w3)) = [(2, 0)]"
    by (simp add: eval_defs eval_nat_numeral)
  then obtain w out w1 out' w3 where
    r: "run linear_sum_assignment real ([det_near] # replicate 29 []) (ObjectTracker_init, 0) = Inr w"
    and m: "map (\<lambda>t. (trk_id t, time_since_update t)) (tracks (fst w)) = [(1, 29)]"
    and u: "update linear_sum_assignment real [] w = Inr (out, w1)"
    and e: "tracks (fst w1) = []"
    and u': "update linear_sum_assignment real [det_near] w1 = Inr (out', w3)"
    and m': "map (\<lambda>t. (trk_id t, time_since_update t)) (tracks (fst w3)) = [(2, 0)]"
    by (elim exE conjE) (rule that)
  have reach: "reachable linear_sum_assignment real w"
    using reachable_init r by (rule run_reachable)
  have l: "later linear_sum_assignment real w1 w1" by (rule later_refl)
  have i: "1 \<in> track_ids w" using m by (auto simp: track_ids_def map_eq_Cons_conv)
  have i': "1 \<notin> track_ids w1" using e by (simp add: track_ids_def)
  have "out' 1 = None \<and> 1 \<notin> track_ids w3"
    using removal_monotonic [OF reach u] i i' l u' by blast
  then have c: "out' 1 = None" "1 \<notin> track_ids w3" by simp_all
  show ?thesis
    by (rule exI [of _ w], rule exI [of _ out], rule exI [of _ w1],
        rule exI [of _ out'], rule exI [of _ w3])
       (use reach u m e l u' m' c in simp)
qed

text \<open>
  C4: \<open>hit_streak\<close> is 1 on creation, \<open>Track.update\<close> adds exactly 1 to it,
  \<open>Track.predict\<close> leaves it alone, no call of the tracker lowers it (a frame that
  misses the track included), and in every reachable state it equals \<open>hits\<close>.
\<close>

theorem hit_streak_equals_hits:
  "hit_streak (fst (Track_init clk det i k)) = 1
   \<and> (\<forall>t' k'. track_update clk det t k = Inr (t', k') \<longrightarrow> hit_streak t' = hit_streak t + 1)
   \<and> hit_streak (fst (track_predict t)) = hit_streak t
   \<and> (reachable lsa clk w \<longrightarrow>
        (\<forall>t\<in>set (tracks (fst w)). hit_streak t = hits t)
        \<and> (\<forall>dets out w'. update lsa clk dets w = Inr (out, w') \<longrightarrow>
             (\<forall>t\<in>set (tracks (fst w)). \<forall>t'\<in>set (tracks (fst w')).
                trk_id t' = trk_id t \<longrightarrow> hit_streak t \<le> hit_streak t')))"
proof -
  have a: "hit_streak (fst (Track_init clk det i k)) = 1" by (simp add: Track_init_def)
  have b: "\<forall>t' k'. track_update clk det t k = Inr (t', k') \<longrightarrow> hit_streak t' = hit_streak t + 1"
    by (auto dest: track_update_fields(3))
  have c: "hit_streak (fst (track_predict t)) = hit_streak t" by (rule track_predict_fields(3))
  have d: "(\<forall>t\<in>set (tracks (fst w)). hit_streak t = hits t)
        \<and> (\<forall>dets out w'. update lsa clk dets w = Inr (out, w') \<longrightarrow>
             (\<forall>t\<in>set (tracks (fst w)). \<forall>t'\<in>set (tracks (fst w')).
                trk_id t' = trk_id t \<longrightarrow> hit_streak t \<le> hit_streak t'))" if "reachable lsa clk w"
  proof -
    have inv: "tracker_inv (fst w)" using that by (rule reachable_inv)
    then have "\<forall>t\<in>set (tracks (fst w)). hit_streak t = hits t" by (simp add: tracker_inv_def)
    moreover have "\<forall>dets out w'. update lsa clk dets w = Inr (out, w') \<longrightarrow>
             (\<forall>t\<in>set (tracks (fst w)). \<forall>t'\<in>set (tracks (fst w')).
                trk_id t' = trk_id t \<longrightarrow> hit_streak t \<le> hit_streak t')"
      using inv by (blast intro: update_streak_mono)
    ultimately show ?thesis by blast
  qed
  from a b c d show ?thesis by blast
qed

theorem hit_streak_equals_hits_witness:
  "\<exists>w out w'.
      reachable linear_sum_assignment real w
    \<and> update linear_sum_assignment real [] w = Inr (out, w')
    \<and> map (\<lambda>t. (trk_id t, hit_streak t, hits t)) (tracks (fst w)) = [(1, 2, 2)]
    \<and> map (\<lambda>t. (trk_id t, hit_streak t, hits t, time_since_update t)) (tracks (fst w')) = [(1, 2, 2, 1)]
    \<and> (\<forall>t\<in>set (tracks (fst w)). \<forall>t'\<in>set (tracks (fst w')).
          trk_id t' = trk_id t \<longrightarrow> hit_streak t \<le> hit_streak t')
    \<and> hit_streak (fst (Track_init real det_near 1 0)) = 1"
proof -
  have "\<exists>w out w'.
      run linear_sum_assignment real [[det_near], [det_near]] (ObjectTracker_init, 0) = Inr w
    \<and> update linear_sum_assignment real [] w = Inr (out, w')
    \<and> map (\<lambda>t. (trk_id t, hit_streak t, hits t)) (tracks (fst w)) = [(1, 2, 2)]
    \<and> map (\<lambda>t. (trk_id t, hit_streak t, hits t, time_since_update t)) (tracks (fst w')) = [(1, 2, 2, 1)]"
    by (simp add: eval_defs eval_nat_numeral)
  then obtain w out w' where
    r: "run linear_sum_assignment real [[det_near], [det_near]] (ObjectTracker_init, 0) = Inr w"
    and u: "update linear_sum_assignment real [] w = Inr (out, w')"
    and m: "map (\<lambda>t. (trk_id t, hit_streak t, hits t)) (tracks (fst w)) = [(1, 2, 2)]"
    and m': "map (\<lambda>t. (trk_id t, hit_streak t, hits t, time_since_update t)) (tracks (fst w')) = [(1, 2, 2, 1)]"
    by (elim exE conjE) (rule that)
  have reach: "reachable linear_sum_assignment real w"
    using reachable_init r by (rule run_reachable)
  have "hit_streak (fst (Track_init real det_near 1 0)) = 1
     \<and> (\<forall>t\<in>set (tracks (fst w)). \<forall>t'\<in>set (tracks (fst w')).
          trk_id t' = trk_id t \<longrightarrow> hit_streak t \<le> hit_streak t')"
    using hit_streak_equals_hits [of real det_near 1 0 undefined linear_sum_assignment w] reach u
    by blast
  then have c: "hit_streak (fst (Track_init real det_near 1 0)) = 1"
    "\<forall>t\<in>set (tracks (fst w)). \<forall>t'\<in>set (tracks (fst w')).
          trk_id t' = trk_id t \<longrightarrow> hit_streak t \<le> hit_streak t'"
    by simp_all
  show ?thesis
    by (rule exI [of _ w], rule exI [of _ out], rule exI [of _ w'])
       (use reach u m m' c in simp)
qed

section \<open>Properties of the predictor\<close>

lemma small_velocity_impact:
  assumes "\<bar>fst v\<bar> < 1 / 10 ^ 6" and "\<bar>snd v\<bar> < 1 / 10 ^ 6"
  shows "calculate_impact_point p pos v = pos"
  using assms by (simp add: calculate_impact_point_def Let_def)

lemma small_velocity_time:
  assumes "\<bar>fst v\<bar> < 1 / 10 ^ 6" and "\<bar>snd v\<bar> < 1 / 10 ^ 6"
  shows "calculate_time_to_impact pos v pos =
           (if sqrt ((fst v)\<^sup>2 + (snd v)\<^sup>2) > 1 / 10 ^ 6 then Finite 0 else PosInf)"
  using assms by (simp add: calculate_time_to_impact_def Let_def)

lemma pow2_powr: "pow2 e = 2 powr (real_of_int e)"
proof (cases "0 \<le> e")
  case True
  then have "2 powr (real_of_int e) = 2 powr (real (nat e))" by simp
  also have "\<dots> = 2 ^ nat e" by (simp add: powr_realpow)
  finally show ?thesis using True by (simp add: pow2_def)
next
  case False
  then have "2 powr (real_of_int e) = 2 powr (- real (nat (- e)))" by simp
  also have "\<dots> = 1 / 2 ^ nat (- e)"
    by (simp add: powr_minus powr_realpow divide_inverse del: of_nat_nat)
  finally show ?thesis using False by (simp add: pow2_def)
qed

text \<open>Rounding a number whose binary exponent is known.\<close>

lemma fl_eval:
  assumes "pow2 k \<le> \<bar>x\<bar>" and "\<bar>x\<bar> < pow2 (k + 1)"
  shows "fl x = of_int (round_half_even (x / pow2 (k - 52))) * pow2 (k - 52)"
proof -
  have "0 < pow2 k" by (simp add: pow2_def)
  then have pos: "0 < \<bar>x\<bar>" using assms(1) by linarith
  have "\<lfloor>log 2 \<bar>x\<bar>\<rfloor> = k"
    using assms pos by (simp add: floor_log_eq_powr_iff pow2_powr)
  then show ?thesis using pos by (simp add: fl_def Let_def)
qed

lemma fl_tenth: "fl (1 / 10) = 3602879701896397 / 36028797018963968"
  by (subst fl_eval [of "-4"]) (simp_all add: pow2_def round_half_even_def Let_def)


lemma fl_5: "fl 5 = 5"
  by (subst fl_eval [of 2]) (simp_all add: pow2_def round_half_even_def Let_def)


lemma fl_quotient_50: "fl (5 / (3602879701896397 / 36028797018963968)) = 50"
  by (subst fl_eval [of 5]) (simp_all add: pow2_def round_half_even_def Let_def)

lemma fl_0: "fl 0 = 0"
  by (simp add: fl_def)

lemma arange_count_kalman: "arange_count 0 5 (1 / 10) = 50"
  unfolding arange_count_def fl_tenth fl_0 fl_5 diff_zero fl_quotient_50
  by simp








lemma identical_values_shift:
  assumes "xs \<noteq> []"
  shows "identical_values (map (\<lambda>t. t - a) xs) = identical_values xs"
proof -
  have m: "mono (\<lambda>t::real. t - a)" by (simp add: mono_def)
  have fin: "finite (set xs)" "set xs \<noteq> {}" using assms by simp_all
  have "Max ((\<lambda>t. t - a) ` set xs) = Max (set xs) - a"
    using mono_Max_commute [OF m fin] by simp
  moreover have "Min ((\<lambda>t. t - a) ` set xs) = Min (set xs) - a"
    using mono_Min_commute [OF m fin] by simp
  ultimately show ?thesis by (simp add: identical_values_def)
qed

lemma length_arange: "length (arange start stop step) = arange_count start stop step"
  by (simp add: arange_def)

lemma kalman_prediction_success:
  "\<exists>kp. kalman_prediction TrajectoryPredictor_init trk = Success kp \<and> fc_method kp = Kalman
     \<and> fc_confidence kp = 8 / 10 \<and> length (fc_trajectory kp) = 50"
  by (simp add: kalman_prediction_def Let_def TrajectoryPredictor_init_def length_arange
        arange_count_kalman)

lemma linear_prediction_identical:
  assumes "3 \<le> length positions" and "length timestamps = length positions"
    and "identical_values timestamps"
  shows "linear_prediction p linregress positions timestamps = Inl ValueError"
proof -
  have ne: "timestamps \<noteq> []" using assms(1,2) by auto
  have "identical_values (map (\<lambda>t. t - hd timestamps) timestamps)"
    using assms(3) by (simp add: identical_values_shift [OF ne])
  then show ?thesis
    using assms(1,2) ne by (simp add: linear_prediction_def linregress_call_def Let_def)
qed

lemma linear_prediction_distinct:
  assumes "3 \<le> length positions" and "length timestamps = length positions"
    and "\<not> identical_values timestamps"
  shows "\<exists>lp. linear_prediction p linregress positions timestamps = Inr (Success lp)
     \<and> fc_method lp = Linear \<and> 0 \<le> fc_confidence lp
     \<and> length (fc_trajectory lp) =
         arange_count (fl (last timestamps - hd timestamps))
           (fl (fl (last timestamps - hd timestamps) + prediction_time p)) (1 / 10)"
proof -
  have ne: "timestamps \<noteq> []" "positions \<noteq> []" using assms(1,2) by auto
  have "\<not> identical_values (map (\<lambda>t. t - hd timestamps) timestamps)"
    using assms(3) by (simp add: identical_values_shift [OF ne(1)])
  then show ?thesis
    using assms(1,2) ne
    by (simp add: linear_prediction_def linregress_call_def Let_def length_arange
          split: prod.splits)
qed

lemma combine_result:
  assumes "combine_predictions (Success lp) (Success kp) = Inr r"
  shows "(fc_confidence lp + fc_confidence kp = 0 \<and> r = Success kp)
     \<or> (fc_confidence lp + fc_confidence kp \<noteq> 0
         \<and> (\<exists>f. r = Success f \<and> fc_method f = Combined
              \<and> fc_impact_point f = fc_impact_point
                   (if fc_confidence lp / (fc_confidence lp + fc_confidence kp)
                        > fc_confidence kp / (fc_confidence lp + fc_confidence kp) then lp else kp)
              \<and> fc_time_to_impact f = fc_time_to_impact
                   (if fc_confidence lp / (fc_confidence lp + fc_confidence kp)
                        > fc_confidence kp / (fc_confidence lp + fc_confidence kp) then lp else kp)))"
  using assms
  by (auto simp: combine_predictions_def Let_def split: if_splits sum.splits)

lemma combine_defined:
  assumes "fc_confidence lp + fc_confidence kp \<noteq> 0"
    and "length (fc_trajectory lp) = length (fc_trajectory kp)"
  shows "\<exists>f. combine_predictions (Success lp) (Success kp) = Inr (Success f) \<and> fc_method f = Combined"
  using assms by (simp add: combine_predictions_def weighted_sum_def Let_def)

lemma combine_single_point:
  assumes "fc_confidence lp + fc_confidence kp \<noteq> 0"
    and "length (fc_trajectory lp) = 1" and "fc_trajectory kp \<noteq> []"
  shows "\<exists>f. combine_predictions (Success lp) (Success kp) = Inr (Success f) \<and> fc_method f = Combined"
  using assms by (simp add: combine_predictions_def weighted_sum_def Let_def)

lemma combine_mismatch:
  assumes "fc_confidence lp + fc_confidence kp \<noteq> 0"
    and "length (fc_trajectory lp) \<noteq> length (fc_trajectory kp)"
    and "length (fc_trajectory lp) \<noteq> 1" and "length (fc_trajectory kp) \<noteq> 1"
  shows "combine_predictions (Success lp) (Success kp) = Inl ValueError"
  using assms by (simp add: combine_predictions_def weighted_sum_def Let_def)

text \<open>
  What \<open>predict_trajectory\<close> does with a history of at least five entries: it raises
  when the timestamps are identical or when the linear trajectory has neither the 50
  points of the constant-velocity trajectory nor a single point, and returns a combined
  forecast otherwise.
\<close>

lemma predict_trajectory_enough_history:
  assumes "5 \<le> length (ts_history trk)"
  shows "predict_trajectory TrajectoryPredictor_init linregress trk = Inl ValueError
           \<and> (identical_values (map h_timestamp (ts_history trk))
                \<or> (linear_points trk \<noteq> 50 \<and> linear_points trk \<noteq> 1))
         \<or> (\<exists>f. predict_trajectory TrajectoryPredictor_init linregress trk = Inr (Success f)
                  \<and> fc_method f = Combined)
             \<and> \<not> identical_values (map h_timestamp (ts_history trk))
             \<and> (linear_points trk = 50 \<or> linear_points trk = 1)"
proof -
  let ?P = TrajectoryPredictor_init
  let ?ps = "map h_position (ts_history trk)"
  let ?ts = "map h_timestamp (ts_history trk)"
  have len: "3 \<le> length ?ps" "length ?ts = length ?ps" using assms by simp_all
  have mh: "min_history_points ?P = 5" and pt5: "prediction_time ?P = 5"
    by (simp_all add: TrajectoryPredictor_init_def)
  have pt: "predict_trajectory ?P linregress trk =
              (case linear_prediction ?P linregress ?ps ?ts of
                 Inl e \<Rightarrow> Inl e
               | Inr linear_pred \<Rightarrow> combine_predictions linear_pred (kalman_prediction ?P trk))"
    using assms by (simp add: predict_trajectory_def Let_def mh)
  show ?thesis
  proof (cases "identical_values ?ts")
    case True
    have "linear_prediction ?P linregress ?ps ?ts = Inl ValueError"
      using len True by (rule linear_prediction_identical)
    then show ?thesis using True by (simp add: pt)
  next
    case False
    obtain lp where lp:
      "linear_prediction ?P linregress ?ps ?ts = Inr (Success lp)"
      "0 \<le> fc_confidence lp"
      "length (fc_trajectory lp) =
         arange_count (fl (last ?ts - hd ?ts))
           (fl (fl (last ?ts - hd ?ts) + prediction_time ?P)) (1 / 10)"
      using linear_prediction_distinct [OF len False] by blast
    have n: "length (fc_trajectory lp) = linear_points trk"
      using lp(3) by (simp add: linear_points_def Let_def pt5)
    obtain kp where kp: "kalman_prediction ?P trk = Success kp" "fc_confidence kp = 8 / 10"
      "length (fc_trajectory kp) = 50"
      using kalman_prediction_success by blast
    have tot: "fc_confidence lp + fc_confidence kp \<noteq> 0" using lp(2) kp(2) by simp
    have eq: "predict_trajectory ?P linregress trk = combine_predictions (Success lp) (Success kp)"
      using lp(1) kp(1) by (simp add: pt)
    consider "linear_points trk = 50" | "linear_points trk = 1"
      | "linear_points trk \<noteq> 50" "linear_points trk \<noteq> 1" by blast
    then show ?thesis
    proof cases
      case 1
      then show ?thesis using combine_defined [OF tot] n kp(3) False by (simp add: eq)
    next
      case 2
      have "fc_trajectory kp \<noteq> []" using kp(3) by auto
      then show ?thesis using combine_single_point [OF tot] n 2 False by (simp add: eq)
    next
      case 3
      then show ?thesis using combine_mismatch [OF tot] n kp(3) by (simp add: eq)
    qed
  qed
qed

text \<open>
  C5: \<open>predict_trajectory\<close> returns the result \<open>insufficient_data\<close> exactly when
  the history of the snapshot has fewer than 5 entries; it is a returned value, not an
  exception, and it carries no forecast.
\<close>

theorem insufficient_data_iff:
  "predict_trajectory TrajectoryPredictor_init linregress trk = Inr Insufficient_data
   \<longleftrightarrow> length (ts_history trk) < 5"
proof
  assume r: "predict_trajectory TrajectoryPredictor_init linregress trk = Inr Insufficient_data"
  show "length (ts_history trk) < 5"
  proof (rule ccontr)
    assume "\<not> length (ts_history trk) < 5"
    then have "5 \<le> length (ts_history trk)" by simp
    from predict_trajectory_enough_history [OF this, of linregress] r show False by auto
  qed
next
  assume "length (ts_history trk) < 5"
  then show "predict_trajectory TrajectoryPredictor_init linregress trk = Inr Insufficient_data"
    by (simp add: predict_trajectory_def TrajectoryPredictor_init_def)
qed

theorem insufficient_data_iff_witness:
  "length (ts_history (snapshot_line\<lparr>ts_history := take 4 (ts_history snapshot_line)\<rparr>)) < 5
   \<and> predict_trajectory TrajectoryPredictor_init regression_line
        (snapshot_line\<lparr>ts_history := take 4 (ts_history snapshot_line)\<rparr>) = Inr Insufficient_data
   \<and> \<not> length (ts_history snapshot_line) < 5
   \<and> predict_trajectory TrajectoryPredictor_init regression_line snapshot_line
        \<noteq> Inr Insufficient_data"
proof -
  have a: "length (ts_history (snapshot_line\<lparr>ts_history := take 4 (ts_history snapshot_line)\<rparr>)) < 5"
    by (simp add: snapshot_line_def)
  have b: "\<not> length (ts_history snapshot_line) < 5"
    by (simp add: snapshot_line_def)
  show ?thesis
    using a b
      insufficient_data_iff [of regression_line
        "snapshot_line\<lparr>ts_history := take 4 (ts_history snapshot_line)\<rparr>"]
      insufficient_data_iff [of regression_line snapshot_line]
    by blast
qed

text \<open>
  C6: when both forecasts succeed, the impact point and the time to impact of the
  combined result are those of the linear forecast when its normalised weight is
  strictly the larger, and those of the constant-velocity forecast otherwise, equal
  weights included; each is one of the two given values, never an average.
\<close>

theorem impact_from_larger_weight:
  assumes "combine_predictions (Success lp) (Success kp) = Inr r"
  shows "\<exists>f. r = Success f
     \<and> fc_impact_point f = fc_impact_point
          (if fc_confidence lp + fc_confidence kp \<noteq> 0
              \<and> fc_confidence lp / (fc_confidence lp + fc_confidence kp)
                  > fc_confidence kp / (fc_confidence lp + fc_confidence kp) then lp else kp)
     \<and> fc_time_to_impact f = fc_time_to_impact
          (if fc_confidence lp + fc_confidence kp \<noteq> 0
              \<and> fc_confidence lp / (fc_confidence lp + fc_confidence kp)
                  > fc_confidence kp / (fc_confidence lp + fc_confidence kp) then lp else kp)"
  using combine_result [OF assms] by auto

theorem impact_from_larger_weight_witness:
  "\<exists>r f. combine_predictions (Success (forecast_linear (9 / 10))) (Success forecast_kalman) = Inr r
      \<and> r = Success f \<and> fc_impact_point f = (1280, 10) \<and> fc_time_to_impact f = Finite 5"
proof -
  obtain f where f:
    "combine_predictions (Success (forecast_linear (9 / 10))) (Success forecast_kalman)
       = Inr (Success f)"
    using combine_defined [of "forecast_linear (9 / 10)" forecast_kalman]
    by (auto simp: forecast_linear_def forecast_kalman_def)
  from impact_from_larger_weight [OF f]
  have "fc_impact_point f = (1280, 10) \<and> fc_time_to_impact f = Finite 5"
    by (simp add: forecast_linear_def forecast_kalman_def)
  with f show ?thesis by blast
qed

text \<open>
  C7: for a velocity with \<open>|vx| < 1e-6\<close> and \<open>|vy| < 1e-6\<close> the impact point is the
  position itself and the time to impact is infinite. The first half holds. The second
  fails: the time to impact tests the speed \<open>sqrt (vx\<^sup>2 + vy\<^sup>2)\<close> against
  \<open>1e-6\<close>, and a velocity of \<open>9e-7\<close> on both axes has a speed above it, so the
  result is the distance 0 divided by the speed.
\<close>

theorem small_velocity_time_counterexample:
  "\<bar>9 / 10 ^ 7 :: real\<bar> < 1 / 10 ^ 6
   \<and> calculate_impact_point TrajectoryPredictor_init (100, 100) (9 / 10 ^ 7, 9 / 10 ^ 7) = (100, 100)
   \<and> calculate_time_to_impact (100, 100) (9 / 10 ^ 7, 9 / 10 ^ 7)
        (calculate_impact_point TrajectoryPredictor_init (100, 100) (9 / 10 ^ 7, 9 / 10 ^ 7))
      = Finite 0
   \<and> calculate_time_to_impact (100, 100) (9 / 10 ^ 7, 9 / 10 ^ 7)
        (calculate_impact_point TrajectoryPredictor_init (100, 100) (9 / 10 ^ 7, 9 / 10 ^ 7))
      \<noteq> PosInf"
proof -
  have "(1 / 10 ^ 6 :: real) = sqrt ((1 / 10 ^ 6)\<^sup>2)" by simp
  also have "\<dots> < sqrt ((9 / 10 ^ 7)\<^sup>2 + (9 / 10 ^ 7)\<^sup>2)"
    by (rule real_sqrt_less_mono) (simp add: power2_eq_square)
  finally have sp: "(1 / 10 ^ 6 :: real) < sqrt ((9 / 10 ^ 7)\<^sup>2 + (9 / 10 ^ 7)\<^sup>2)" .
  have ip: "calculate_impact_point TrajectoryPredictor_init (100, 100) (9 / 10 ^ 7, 9 / 10 ^ 7)
              = (100, 100)"
    by (rule small_velocity_impact) simp_all
  have "calculate_time_to_impact (100, 100) (9 / 10 ^ 7, 9 / 10 ^ 7) (100, 100) = Finite 0"
    using sp by (subst small_velocity_time) simp_all
  with ip show ?thesis by simp
qed

text \<open>
  C7, as the code has it: for a velocity with \<open>|vx| < 1e-6\<close> and \<open>|vy| < 1e-6\<close> the
  impact point is the position itself; the time to impact is infinite when the speed
  \<open>sqrt (vx\<^sup>2 + vy\<^sup>2)\<close> is at most \<open>1e-6\<close>, as it is for the velocity
  \<open>(0, 0)\<close>, and is 0 otherwise.
\<close>

theorem small_velocity_impact_time:
  assumes "\<bar>vx\<bar> < 1 / 10 ^ 6" and "\<bar>vy\<bar> < 1 / 10 ^ 6"
  shows "calculate_impact_point p position (vx, vy) = position
     \<and> calculate_time_to_impact position (vx, vy) (calculate_impact_point p position (vx, vy))
         = (if sqrt (vx\<^sup>2 + vy\<^sup>2) \<le> 1 / 10 ^ 6 then PosInf else Finite 0)"
proof -
  have ip: "calculate_impact_point p position (vx, vy) = position"
    using assms by (intro small_velocity_impact) simp_all
  have "calculate_time_to_impact position (vx, vy) position
          = (if sqrt (vx\<^sup>2 + vy\<^sup>2) > 1 / 10 ^ 6 then Finite 0 else PosInf)"
    using assms small_velocity_time [of "(vx, vy)" position] by simp
  with ip show ?thesis by (simp add: not_less)
qed

theorem small_velocity_impact_time_witness:
  "\<bar>0 :: real\<bar> < 1 / 10 ^ 6
   \<and> calculate_impact_point TrajectoryPredictor_init (100, 100) (0, 0) = (100, 100)
   \<and> calculate_time_to_impact (100, 100) (0, 0)
        (calculate_impact_point TrajectoryPredictor_init (100, 100) (0, 0)) = PosInf"
proof -
  have h: "\<bar>0 :: real\<bar> < 1 / 10 ^ 6" by simp
  show ?thesis
    using h small_velocity_impact_time [OF h h, of TrajectoryPredictor_init "(100, 100)"]
    by (simp add: small_velocity_impact)
qed

text \<open>
  C8: on the frame of 1280 by 720, from the position \<open>(100, 100)\<close> with the velocity
  \<open>(10, 0)\<close>, the impact point is \<open>(1280, 100)\<close> on the right edge and the time to
  impact is 118, a positive number.
\<close>

theorem impact_right_edge:
  "calculate_impact_point TrajectoryPredictor_init (100, 100) (10, 0) = (1280, 100)
   \<and> calculate_time_to_impact (100, 100) (10, 0)
         (calculate_impact_point TrajectoryPredictor_init (100, 100) (10, 0)) = Finite 118
   \<and> (0::real) < 118"
  by (simp add: calculate_impact_point_def calculate_time_to_impact_def
        TrajectoryPredictor_init_def Let_def)








end
